theory Spec2Isabelle
  imports Complex_Main
begin

section \<open>Rolling-window anomaly detection (Problem1.py)\<close>

text \<open>
  The module keeps one deque of \<open>(ts, value)\<close> pairs per \<open>(roomId, metric)\<close> key in the
  global dictionary \<open>buffers\<close>. \<open>push_sample\<close> appends a sample, purges the front of the
  deque and calls \<open>check_anomaly\<close>, which computes a z-score of the latest value.

  Modelling decisions:
  \<^item> a \<open>datetime\<close> is the number of microseconds since \<open>datetime.min\<close>, a \<open>nat\<close>;
    subtracting a \<open>timedelta\<close> below \<open>datetime.min\<close> raises \<open>OverflowError\<close>;
  \<^item> a Python \<open>float\<close> is \<open>pyfloat\<close>: a finite real, an infinity or NaN. The special
    values follow IEEE 754 as Python exposes it; finite arithmetic is exact, so rounding
    and the finite exponent range of a double are outside the model;
  \<^item> the global \<open>buffers\<close> and the anomaly sink are the fields of an explicit \<open>store\<close>
    that every operation takes and returns;
  \<^item> the clock reading \<open>int(datetime.utcnow().timestamp())\<close> is the parameter \<open>now\<close>;
  \<^item> exceptions are values of \<open>error\<close>, returned as \<open>Inl\<close>.
\<close>

subsection \<open>Python floats\<close>

datatype pyfloat = Finite real | PosInf | NegInf | NaN

datatype error = OverflowError | ValueError | ZeroDivisionError

definition bind_err :: "error + 'a \<Rightarrow> ('a \<Rightarrow> error + 'b) \<Rightarrow> error + 'b" where
  "bind_err m f = (case m of Inl e \<Rightarrow> Inl e | Inr x \<Rightarrow> f x)"

text \<open>
  \<open>a + b\<close>. The sum of two finite values is their exact sum: a double would round it to
  53 bits and turn it into an infinity beyond about 1.8e308. What is proved below on
  finite values is therefore proved on inputs where the statement does not depend on
  the last bits or on the range: the window 10, 10, 10, 100, whose mean and variance are
  exact in doubles and whose z-score is far from the threshold, and the spike window.
  Statements on how exactly a double computation comes out, such as a z-score being 0,
  are not made.
\<close>

fun fadd :: "pyfloat \<Rightarrow> pyfloat \<Rightarrow> pyfloat" where
  "fadd NaN _ = NaN"
| "fadd _ NaN = NaN"
| "fadd (Finite x) (Finite y) = Finite (x + y)"
| "fadd (Finite _) PosInf = PosInf"
| "fadd (Finite _) NegInf = NegInf"
| "fadd PosInf (Finite _) = PosInf"
| "fadd NegInf (Finite _) = NegInf"
| "fadd PosInf PosInf = PosInf"
| "fadd NegInf NegInf = NegInf"
| "fadd PosInf NegInf = NaN"
| "fadd NegInf PosInf = NaN"

fun fneg :: "pyfloat \<Rightarrow> pyfloat" where
  "fneg (Finite x) = Finite (- x)"
| "fneg PosInf = NegInf"
| "fneg NegInf = PosInf"
| "fneg NaN = NaN"

definition fsub :: "pyfloat \<Rightarrow> pyfloat \<Rightarrow> pyfloat" where
  "fsub a b = fadd a (fneg b)"

text \<open>
  \<open>x ** 2\<close>. Python raises \<open>OverflowError\<close> when the square of a finite double leaves the
  range of a double (beyond about 1.3e154 in magnitude); finite values being unbounded
  reals here, that branch is not part of the model.
\<close>

fun fsquare :: "pyfloat \<Rightarrow> pyfloat" where
  "fsquare (Finite x) = Finite (x * x)"
| "fsquare PosInf = PosInf"
| "fsquare NegInf = PosInf"
| "fsquare NaN = NaN"

text \<open>\<open>math.sqrt\<close>: a negative argument raises \<open>ValueError\<close>.\<close>

fun py_sqrt :: "pyfloat \<Rightarrow> error + pyfloat" where
  "py_sqrt (Finite x) = (if x < 0 then Inl ValueError else Inr (Finite (sqrt x)))"
| "py_sqrt PosInf = Inr PosInf"
| "py_sqrt NegInf = Inl ValueError"
| "py_sqrt NaN = Inr NaN"

text \<open>\<open>a / b\<close>: a zero divisor raises \<open>ZeroDivisionError\<close>, whatever the dividend.\<close>

fun py_div :: "pyfloat \<Rightarrow> pyfloat \<Rightarrow> error + pyfloat" where
  "py_div a (Finite y) =
     (if y = 0 then Inl ZeroDivisionError
      else Inr (case a of
                  Finite x \<Rightarrow> Finite (x / y)
                | PosInf \<Rightarrow> (if 0 < y then PosInf else NegInf)
                | NegInf \<Rightarrow> (if 0 < y then NegInf else PosInf)
                | NaN \<Rightarrow> NaN))"
| "py_div a NaN = Inr NaN"
| "py_div (Finite _) PosInf = Inr (Finite 0)"
| "py_div (Finite _) NegInf = Inr (Finite 0)"
| "py_div _ PosInf = Inr NaN"
| "py_div _ NegInf = Inr NaN"

fun fabs :: "pyfloat \<Rightarrow> pyfloat" where
  "fabs (Finite x) = Finite \<bar>x\<bar>"
| "fabs PosInf = PosInf"
| "fabs NegInf = PosInf"
| "fabs NaN = NaN"

text \<open>\<open>a > b\<close>: every comparison with NaN is false.\<close>

fun fgt :: "pyfloat \<Rightarrow> pyfloat \<Rightarrow> bool" where
  "fgt NaN _ = False"
| "fgt _ NaN = False"
| "fgt (Finite x) (Finite y) = (y < x)"
| "fgt PosInf PosInf = False"
| "fgt PosInf _ = True"
| "fgt NegInf _ = False"
| "fgt (Finite _) NegInf = True"
| "fgt (Finite _) PosInf = False"

text \<open>\<open>sum(xs)\<close> adds from the left, starting at 0.\<close>

definition fsum :: "pyfloat list \<Rightarrow> pyfloat" where
  "fsum xs = foldl fadd (Finite 0) xs"

fun is_finite :: "pyfloat \<Rightarrow> bool" where
  "is_finite (Finite _) = True"
| "is_finite _ = False"

subsection \<open>Constants, timestamps and the store\<close>

definition W_SECONDS :: nat where
  "W_SECONDS = 30 * 60"

definition Z_THRESHOLD :: pyfloat where
  "Z_THRESHOLD = Finite (5 / 2)"

definition EPS :: pyfloat where
  "EPS = Finite (1 / 10 ^ 9)"

text \<open>\<open>timedelta(seconds=s)\<close> in microseconds.\<close>

definition timedelta_seconds :: "nat \<Rightarrow> nat" where
  "timedelta_seconds s = s * 1000000"

text \<open>\<open>ts - delta\<close> on a \<open>datetime\<close>: a result before \<open>datetime.min\<close> raises.\<close>

definition datetime_sub :: "nat \<Rightarrow> nat \<Rightarrow> error + nat" where
  "datetime_sub ts delta = (if ts < delta then Inl OverflowError else Inr (ts - delta))"

type_synonym sample = "nat \<times> pyfloat"

type_synonym key = "string \<times> string"

text \<open>
  The anomaly dictionary built by \<open>check_anomaly\<close>. \<open>tsStart\<close> and \<open>tsEnd\<close> hold the
  instants whose \<open>isoformat()\<close> the source stores.
\<close>

record anomaly =
  anom_id :: string
  anom_roomId :: string
  anom_tsStart :: nat
  anom_tsEnd :: nat
  anom_metric :: string
  anom_value :: pyfloat
  anom_z :: pyfloat
  anom_reason :: string

text \<open>
  The state of the module: the global dictionary \<open>buffers\<close>, and the records that have
  been handed to the sink, oldest first.
\<close>

record store =
  buffers :: "key \<Rightarrow> sample list option"
  written :: "anomaly list"

text \<open>
  Modelled from the spec: \<open>write_anomaly\<close>, the anomaly sink that \<open>check_anomaly\<close> calls,
  is not defined in the source (its call carries the comment "implement Cosmos upsert").
  The spec describes it as an external \<open>persist(record)\<close> capability that receives each
  produced record once; it is modelled as appending the record to the list \<open>written\<close>.
\<close>

definition write_anomaly :: "anomaly \<Rightarrow> store \<Rightarrow> store" where
  "write_anomaly a st = st\<lparr>written := written st @ [a]\<rparr>"

definition empty_store :: store where
  "empty_store = \<lparr>buffers = Map.empty, written = []\<rparr>"

subsection \<open>Rendering an integer in an f-string\<close>

text \<open>
  \<open>{int(...)}\<close> in the f-string renders the integer in decimal, with a leading minus sign
  when it is negative.
\<close>

definition digit_char :: "nat \<Rightarrow> char" where
  "digit_char d = ''0123456789'' ! d"

fun str_nat :: "nat \<Rightarrow> string" where
  "str_nat n = (if n < 10 then [digit_char n] else str_nat (n div 10) @ [digit_char (n mod 10)])"

declare str_nat.simps [simp del]

definition str_int :: "int \<Rightarrow> string" where
  "str_int i = (if i < 0 then CHR ''-'' # str_nat (nat (- i)) else str_nat (nat i))"

subsection \<open>The evaluator\<close>

text \<open>The statistics that \<open>check_anomaly\<close> computes from \<open>vals\<close>, one definition per variable.\<close>

definition window_mu :: "pyfloat list \<Rightarrow> error + pyfloat" where
  "window_mu vals = py_div (fsum vals) (Finite (real (length vals)))"

definition window_var :: "pyfloat list \<Rightarrow> pyfloat \<Rightarrow> error + pyfloat" where
  "window_var vals mu =
     py_div (fsum (map (\<lambda>v. fsquare (fsub v mu)) vals)) (Finite (real (length vals)))"

definition window_z :: "pyfloat list \<Rightarrow> error + pyfloat" where
  "window_z vals =
     bind_err (window_mu vals) (\<lambda>mu.
     bind_err (window_var vals mu) (\<lambda>var.
     bind_err (py_sqrt var) (\<lambda>sigma.
       py_div (fsub (last vals) mu) (fadd sigma EPS))))"

definition make_id :: "string \<Rightarrow> string \<Rightarrow> int \<Rightarrow> string" where
  "make_id roomId metric now = ''anom-'' @ roomId @ ''-'' @ metric @ ''-'' @ str_int now"

definition check_anomaly :: "int \<Rightarrow> string \<Rightarrow> string \<Rightarrow> store \<Rightarrow> store \<times> (error + anomaly option)" where
  "check_anomaly now roomId metric st =
     (case buffers st (roomId, metric) of
        None \<Rightarrow> (st, Inr None)
      | Some buf \<Rightarrow>
          if buf = [] \<or> length buf < 3 then (st, Inr None)
          else
            let vals = map snd buf in
            (case window_z vals of
               Inl e \<Rightarrow> (st, Inl e)
             | Inr z \<Rightarrow>
                 if fgt (fabs z) Z_THRESHOLD then
                   let anomaly = \<lparr>anom_id = make_id roomId metric now,
                                  anom_roomId = roomId,
                                  anom_tsStart = fst (hd buf),
                                  anom_tsEnd = fst (last buf),
                                  anom_metric = metric,
                                  anom_value = last vals,
                                  anom_z = z,
                                  anom_reason = ''rolling-z''\<rparr>
                   in (write_anomaly anomaly st, Inr (Some anomaly))
                 else (st, Inr None)))"

subsection \<open>The window store\<close>

text \<open>\<open>while buf and buf[0][0] < cutoff: buf.popleft()\<close>\<close>

fun purge :: "nat \<Rightarrow> sample list \<Rightarrow> sample list" where
  "purge cutoff [] = []"
| "purge cutoff (s # rest) = (if fst s < cutoff then purge cutoff rest else s # rest)"

text \<open>\<open>buffers.setdefault(key, deque())\<close>: the deque of the key, an empty one if it has none.\<close>

definition setdefault_buf :: "store \<Rightarrow> key \<Rightarrow> sample list" where
  "setdefault_buf st key = (case buffers st key of None \<Rightarrow> [] | Some b \<Rightarrow> b)"

definition push_sample ::
  "int \<Rightarrow> string \<Rightarrow> string \<Rightarrow> nat \<Rightarrow> pyfloat \<Rightarrow> store \<Rightarrow> store \<times> (error + anomaly option)" where
  "push_sample now roomId metric ts val st =
     (let key = (roomId, metric);
          buf = setdefault_buf st key @ [(ts, val)];
          st1 = st\<lparr>buffers := (buffers st)(key \<mapsto> buf)\<rparr>
      in case datetime_sub ts (timedelta_seconds W_SECONDS) of
           Inl e \<Rightarrow> (st1, Inl e)
         | Inr cutoff \<Rightarrow>
             check_anomaly now roomId metric
               (st1\<lparr>buffers := (buffers st1)(key \<mapsto> purge cutoff buf)\<rparr>))"

subsection \<open>Sequences of ingestions\<close>

text \<open>
  A caller that pushes one sample after the other for the same key. Each call carries
  its own clock reading; the results are collected in call order. The store is threaded
  through also when a call raises, since the source has appended by then.
\<close>

type_synonym call = "int \<times> nat \<times> pyfloat"

fun ingest_all ::
  "string \<Rightarrow> string \<Rightarrow> call list \<Rightarrow> store \<Rightarrow> store \<times> (error + anomaly option) list" where
  "ingest_all roomId metric [] st = (st, [])"
| "ingest_all roomId metric ((now, ts, val) # calls) st =
     (let (st1, res) = push_sample now roomId metric ts val st;
          (st2, rs) = ingest_all roomId metric calls st1
      in (st2, res # rs))"

text \<open>
  The window content the specification asks for: of the samples ingested so far, those
  whose timestamp is at least \<open>latest - window_duration\<close>, in ingestion order.
\<close>

definition in_window :: "nat \<Rightarrow> sample \<Rightarrow> bool" where
  "in_window latest s = (latest \<le> fst s + timedelta_seconds W_SECONDS)"

definition retained_spec :: "nat \<Rightarrow> sample list \<Rightarrow> sample list" where
  "retained_spec latest ingested = filter (in_window latest) ingested"

text \<open>A store that holds one window and nothing else, for concrete instances.\<close>

definition store_of :: "key \<Rightarrow> sample list \<Rightarrow> store" where
  "store_of k buf = \<lparr>buffers = [k \<mapsto> buf], written = []\<rparr>"

text \<open>
  A window that does trigger: nine readings of 0 and then a reading of 10, one minute
  apart. Its mean is 1, its population variance 9, so the z-score of the latest value is
  \<open>9 / (3 + 1e-9)\<close>, about 3. \<open>spike_record now\<close> is the dictionary that the source builds for
  it for the key \<open>(A, co2)\<close> when the clock reads \<open>now\<close>.
\<close>

definition spike_window :: "sample list" where
  "spike_window =
     [(7200000000, Finite 0), (7260000000, Finite 0), (7320000000, Finite 0),
      (7380000000, Finite 0), (7440000000, Finite 0), (7500000000, Finite 0),
      (7560000000, Finite 0), (7620000000, Finite 0), (7680000000, Finite 0),
      (7740000000, Finite 10)]"

definition spike_record :: "int \<Rightarrow> anomaly" where
  "spike_record now =
     \<lparr>anom_id = make_id ''A'' ''co2'' now,
      anom_roomId = ''A'',
      anom_tsStart = 7200000000,
      anom_tsEnd = 7740000000,
      anom_metric = ''co2'',
      anom_value = Finite 10,
      anom_z = Finite (9 / (3 + 1 / 10 ^ 9)),
      anom_reason = ''rolling-z''\<rparr>"

text \<open>The identifier of the record that a call returned, if it returned one.\<close>

definition result_id :: "store \<times> (error + anomaly option) \<Rightarrow> string option" where
  "result_id res = (case snd res of Inr (Some a) \<Rightarrow> Some (anom_id a) | _ \<Rightarrow> None)"

section \<open>Basic facts\<close>

lemma purge_dropWhile: "purge c xs = dropWhile (\<lambda>s. fst s < c) xs"
  by (induction xs) auto

lemma purge_zero: "purge 0 xs = xs"
  by (cases xs) auto

lemma check_anomaly_buffers: "buffers (fst (check_anomaly now r m st)) = buffers st"
  by (auto simp: check_anomaly_def write_anomaly_def Let_def split: option.splits sum.splits)

text \<open>
  The window that \<open>push_sample\<close> leaves for its key. When the cutoff cannot be computed
  the truncated subtraction gives the cutoff 0, which purges nothing, as in the source.
\<close>

lemma push_sample_buffers:
  "buffers (fst (push_sample now r m ts v st)) =
     (buffers st)((r, m) \<mapsto>
        purge (ts - timedelta_seconds W_SECONDS) (setdefault_buf st (r, m) @ [(ts, v)]))"
  by (simp add: push_sample_def Let_def datetime_sub_def check_anomaly_buffers purge_zero)

lemma sqrt_eps_pos: "0 \<le> x \<Longrightarrow> 0 < sqrt x + 1 / 10 ^ 9"
  by (rule add_nonneg_pos) simp_all

lemma check_anomaly_quiet:
  "buffers st (r, m) = Some buf \<Longrightarrow> window_z (map snd buf) = Inr z \<Longrightarrow>
   \<not> fgt (fabs z) Z_THRESHOLD \<Longrightarrow> check_anomaly now r m st = (st, Inr None)"
  by (simp add: check_anomaly_def)

lemma check_anomaly_few:
  "buffers st (r, m) = Some buf \<Longrightarrow> length buf < 3 \<Longrightarrow>
   check_anomaly now r m st = (st, Inr None)"
  by (simp add: check_anomaly_def)

section \<open>The window 10, 10, 10, 100\<close>

lemma mu_10_10_10_100:
  "window_mu [Finite 10, Finite 10, Finite 10, Finite 100] = Inr (Finite (65 / 2))"
  by (simp add: window_mu_def fsum_def)

lemma z_10_10_10_100:
  "window_z [Finite 10, Finite 10, Finite 10, Finite 100] =
     Inr (Finite ((135 / 2) / (sqrt (6075 / 4) + 1 / 10 ^ 9)))"
  using sqrt_eps_pos [of "6075 / 4"]
  by (simp add: window_z_def window_mu_def window_var_def fsum_def bind_err_def fsub_def EPS_def)

lemma z_10_10_10_100_below:
  "\<not> fgt (fabs (Finite ((135 / 2) / (sqrt (6075 / 4) + 1 / 10 ^ 9)))) Z_THRESHOLD"
proof -
  have "(27::real) = sqrt (27 * 27)" by simp
  also have "\<dots> \<le> sqrt (6075 / 4)" by (rule real_sqrt_le_mono) simp
  finally have s: "27 \<le> sqrt (6075 / 4)" .
  then have pos: "0 < sqrt (6075 / 4) + 1 / 10 ^ 9" by simp
  have "(135 / 2) / (sqrt (6075 / 4) + 1 / 10 ^ 9) \<le> 5 / 2"
    using s pos by (simp add: field_simps)
  moreover have "0 \<le> (135 / 2) / (sqrt (6075 / 4) + 1 / 10 ^ 9)"
    using pos by simp
  ultimately show ?thesis by (simp add: Z_THRESHOLD_def)
qed

lemma check_10_10_10_100:
  assumes "buffers st (r, m) =
    Some [(t1, Finite 10), (t2, Finite 10), (t3, Finite 10), (t4, Finite 100)]"
  shows "check_anomaly now r m st = (st, Inr None)"
  by (rule check_anomaly_quiet [OF assms _ z_10_10_10_100_below]) (simp add: z_10_10_10_100)

text \<open>
  C1 (as stated, refuted). The claim says that the window 10, 10, 10, 100 yields a z-score
  above 2.5 and an anomaly record. On the store that holds exactly this window, with the
  four samples one minute apart, the z-score stays at or below the threshold and
  \<open>check_anomaly\<close> returns \<open>None\<close>.
\<close>

theorem C1_counterexample:
  "\<not> fgt (fabs (Finite ((135 / 2) / (sqrt (6075 / 4) + 1 / 10 ^ 9)))) Z_THRESHOLD \<and>
   window_z (map snd [(7200000000, Finite 10), (7260000000, Finite 10),
                      (7320000000, Finite 10), (7380000000, Finite 100)]) =
     Inr (Finite ((135 / 2) / (sqrt (6075 / 4) + 1 / 10 ^ 9))) \<and>
   snd (check_anomaly 0 ''A'' ''co2''
     (store_of (''A'', ''co2'')
        [(7200000000, Finite 10), (7260000000, Finite 10),
         (7320000000, Finite 10), (7380000000, Finite 100)])) = Inr None"
proof -
  have "check_anomaly 0 ''A'' ''co2''
     (store_of (''A'', ''co2'')
        [(7200000000, Finite 10), (7260000000, Finite 10),
         (7320000000, Finite 10), (7380000000, Finite 100)]) =
     (store_of (''A'', ''co2'')
        [(7200000000, Finite 10), (7260000000, Finite 10),
         (7320000000, Finite 10), (7380000000, Finite 100)], Inr None)"
    by (rule check_10_10_10_100) (simp add: store_of_def)
  then show ?thesis
    using z_10_10_10_100_below z_10_10_10_100 by simp
qed

text \<open>
  C1 (amended). For a window whose values are 10, 10, 10, 100, whatever the timestamps,
  the key and the rest of the store: the mean is 32.5, the z-score of the latest value is
  \<open>67.5 / (sqrt 1518.75 + 1e-9)\<close>, about 1.732, which does not exceed the threshold 2.5,
  and \<open>check_anomaly\<close> returns \<open>None\<close>, writes nothing and leaves the store as it is.
\<close>

theorem C1_window_10_10_10_100_not_anomalous:
  assumes "buffers st (r, m) =
    Some [(t1, Finite 10), (t2, Finite 10), (t3, Finite 10), (t4, Finite 100)]"
  shows "window_mu [Finite 10, Finite 10, Finite 10, Finite 100] = Inr (Finite (65 / 2)) \<and>
         window_z [Finite 10, Finite 10, Finite 10, Finite 100] =
           Inr (Finite ((135 / 2) / (sqrt (6075 / 4) + 1 / 10 ^ 9))) \<and>
         \<not> fgt (fabs (Finite ((135 / 2) / (sqrt (6075 / 4) + 1 / 10 ^ 9)))) Z_THRESHOLD \<and>
         check_anomaly now r m st = (st, Inr None)"
  using mu_10_10_10_100 z_10_10_10_100 z_10_10_10_100_below check_10_10_10_100 [OF assms]
  by simp

theorem C1_witness:
  "buffers (store_of (''A'', ''co2'')
      [(7200000000, Finite 10), (7260000000, Finite 10),
       (7320000000, Finite 10), (7380000000, Finite 100)]) (''A'', ''co2'') =
     Some [(7200000000, Finite 10), (7260000000, Finite 10),
           (7320000000, Finite 10), (7380000000, Finite 100)] \<and>
   check_anomaly 1700000000 ''A'' ''co2''
     (store_of (''A'', ''co2'')
        [(7200000000, Finite 10), (7260000000, Finite 10),
         (7320000000, Finite 10), (7380000000, Finite 100)]) =
     (store_of (''A'', ''co2'')
        [(7200000000, Finite 10), (7260000000, Finite 10),
         (7320000000, Finite 10), (7380000000, Finite 100)], Inr None)"
proof -
  have h: "buffers (store_of (''A'', ''co2'')
      [(7200000000, Finite 10), (7260000000, Finite 10),
       (7320000000, Finite 10), (7380000000, Finite 100)]) (''A'', ''co2'') =
     Some [(7200000000, Finite 10), (7260000000, Finite 10),
           (7320000000, Finite 10), (7380000000, Finite 100)]"
    by (simp add: store_of_def)
  show ?thesis
    using h C1_window_10_10_10_100_not_anomalous [OF h, of 1700000000] by simp
qed

section \<open>The minimum-sample gate and missing windows\<close>

text \<open>
  C5. A window of fewer than 3 samples never yields an anomaly record: \<open>check_anomaly\<close>
  returns \<open>None\<close> and leaves the store as it is.
\<close>

theorem C5_fewer_than_three_samples_none:
  assumes "buffers st (r, m) = Some buf" and "length buf < 3"
  shows "check_anomaly now r m st = (st, Inr None)"
  using assms by (rule check_anomaly_few)

theorem C5_witness:
  "buffers (store_of (''A'', ''co2'') [(7200000000, Finite 10), (7260000000, Finite 1000000)])
     (''A'', ''co2'') = Some [(7200000000, Finite 10), (7260000000, Finite 1000000)] \<and>
   length [(7200000000 :: nat, Finite 10), (7260000000, Finite 1000000)] < 3 \<and>
   check_anomaly 0 ''A'' ''co2''
     (store_of (''A'', ''co2'') [(7200000000, Finite 10), (7260000000, Finite 1000000)]) =
   (store_of (''A'', ''co2'') [(7200000000, Finite 10), (7260000000, Finite 1000000)], Inr None)"
proof -
  have h: "buffers (store_of (''A'', ''co2'') [(7200000000, Finite 10), (7260000000, Finite 1000000)])
     (''A'', ''co2'') = Some [(7200000000, Finite 10), (7260000000, Finite 1000000)]"
    by (simp add: store_of_def)
  have l: "length [(7200000000 :: nat, Finite 10), (7260000000, Finite 1000000)] < 3"
    by simp
  show ?thesis
    using h l C5_fewer_than_three_samples_none [OF h l, of 0] by simp
qed

text \<open>
  C10. \<open>check_anomaly\<close> on a key that has no buffer, or whose buffer is empty, returns
  \<open>None\<close>: it raises nothing and leaves the store as it is.
\<close>

theorem C10_missing_or_empty_buffer_none:
  assumes "buffers st (r, m) = None \<or> buffers st (r, m) = Some []"
  shows "check_anomaly now r m st = (st, Inr None)"
  using assms by (auto simp: check_anomaly_def)

theorem C10_witness:
  "(buffers empty_store (''A'', ''co2'') = None \<or> buffers empty_store (''A'', ''co2'') = Some []) \<and>
   check_anomaly 0 ''A'' ''co2'' empty_store = (empty_store, Inr None) \<and>
   (buffers (store_of (''A'', ''co2'') []) (''A'', ''co2'') = None \<or>
    buffers (store_of (''A'', ''co2'') []) (''A'', ''co2'') = Some []) \<and>
   check_anomaly 0 ''A'' ''co2'' (store_of (''A'', ''co2'') []) =
     (store_of (''A'', ''co2'') [], Inr None)"
proof -
  have h1: "buffers empty_store (''A'', ''co2'') = None \<or>
            buffers empty_store (''A'', ''co2'') = Some []"
    by (simp add: empty_store_def)
  have h2: "buffers (store_of (''A'', ''co2'') []) (''A'', ''co2'') = None \<or>
            buffers (store_of (''A'', ''co2'') []) (''A'', ''co2'') = Some []"
    by (simp add: store_of_def)
  show ?thesis
    using h1 h2 C10_missing_or_empty_buffer_none [OF h1, of 0]
      C10_missing_or_empty_buffer_none [OF h2, of 0]
    by simp
qed

section \<open>What one ingestion does to the store\<close>

lemma purge_append_new:
  "c \<le> ts \<Longrightarrow> purge c (xs @ [(ts, v)]) = purge c xs @ [(ts, v)]"
  by (simp add: purge_dropWhile dropWhile_append3)

lemma purge_drop: "purge c xs = drop (length (takeWhile (\<lambda>s. fst s < c) xs)) xs"
  by (simp add: purge_dropWhile dropWhile_eq_drop)

lemma push_sample_window:
  "buffers (fst (push_sample now r m ts v st)) (r, m) =
     Some (purge (ts - timedelta_seconds W_SECONDS) (setdefault_buf st (r, m)) @ [(ts, v)])"
  by (simp add: push_sample_buffers purge_append_new)

lemma push_sample_result:
  "snd (push_sample now r m ts v st) =
     (if ts < timedelta_seconds W_SECONDS then Inl OverflowError
      else snd (check_anomaly now r m
        (st\<lparr>buffers := (buffers st)((r, m) \<mapsto>
           purge (ts - timedelta_seconds W_SECONDS) (setdefault_buf st (r, m)) @ [(ts, v)])\<rparr>)))"
  by (simp add: push_sample_def Let_def datetime_sub_def purge_append_new)

text \<open>
  C8. After every call of \<open>push_sample\<close>, also one that raises, the window of the key
  is the old window without some prefix of it, followed by the sample just appended: it is
  not empty, eviction has removed samples from the front only, and the appended sample
  has stayed.
\<close>

theorem C8_window_keeps_appended_sample:
  "\<exists>k\<le>length (setdefault_buf st (r, m)).
     buffers (fst (push_sample now r m ts v st)) (r, m) =
       Some (drop k (setdefault_buf st (r, m)) @ [(ts, v)])"
proof (intro exI conjI)
  show "length (takeWhile (\<lambda>s. fst s < ts - timedelta_seconds W_SECONDS) (setdefault_buf st (r, m)))
          \<le> length (setdefault_buf st (r, m))"
    by (rule length_takeWhile_le)
  show "buffers (fst (push_sample now r m ts v st)) (r, m) =
       Some (drop (length (takeWhile (\<lambda>s. fst s < ts - timedelta_seconds W_SECONDS)
                     (setdefault_buf st (r, m)))) (setdefault_buf st (r, m)) @ [(ts, v)])"
    by (simp add: push_sample_window purge_drop)
qed

text \<open>
  C9. \<open>push_sample\<close> for the key \<open>(r, m)\<close> leaves the window of every other key as it
  was, whether the other key differs in the entity or in the metric.
\<close>

theorem C9_other_keys_unchanged:
  assumes "k \<noteq> (r, m)"
  shows "buffers (fst (push_sample now r m ts v st)) k = buffers st k"
  using assms by (simp add: push_sample_buffers)

theorem C9_witness:
  "(''B'', ''co2'') \<noteq> (''A'', ''co2'') \<and> (''A'', ''humidity'') \<noteq> (''A'', ''co2'') \<and>
   buffers (fst (push_sample 0 ''A'' ''co2'' 9000000000 (Finite 5000)
     \<lparr>buffers = [(''B'', ''co2'') \<mapsto> [(7100000000, Finite 400)],
                 (''A'', ''humidity'') \<mapsto> [(7100000000, Finite 45)]],
      written = []\<rparr>)) (''B'', ''co2'') = Some [(7100000000, Finite 400)] \<and>
   buffers (fst (push_sample 0 ''A'' ''co2'' 9000000000 (Finite 5000)
     \<lparr>buffers = [(''B'', ''co2'') \<mapsto> [(7100000000, Finite 400)],
                 (''A'', ''humidity'') \<mapsto> [(7100000000, Finite 45)]],
      written = []\<rparr>)) (''A'', ''humidity'') = Some [(7100000000, Finite 45)]"
proof -
  have h1: "(''B'', ''co2'') \<noteq> (''A'', ''co2'')" by simp
  have h2: "(''A'', ''humidity'') \<noteq> (''A'', ''co2'')" by simp
  show ?thesis
    using h1 h2
      C9_other_keys_unchanged [OF h1, of 0 9000000000 "Finite 5000"
        "\<lparr>buffers = [(''B'', ''co2'') \<mapsto> [(7100000000, Finite 400)],
                     (''A'', ''humidity'') \<mapsto> [(7100000000, Finite 45)]],
          written = []\<rparr>"]
      C9_other_keys_unchanged [OF h2, of 0 9000000000 "Finite 5000"
        "\<lparr>buffers = [(''B'', ''co2'') \<mapsto> [(7100000000, Finite 400)],
                     (''A'', ''humidity'') \<mapsto> [(7100000000, Finite 45)]],
          written = []\<rparr>"]
    by simp
qed

section \<open>Non-finite values\<close>

lemma foldl_fadd_NaN: "foldl fadd NaN xs = NaN"
  by (induction xs) auto

lemma foldl_fadd_has_NaN: "NaN \<in> set xs \<Longrightarrow> foldl fadd a xs = NaN"
proof (induction xs arbitrary: a)
  case Nil
  then show ?case by simp
next
  case (Cons x xs)
  show ?case
  proof (cases "x = NaN")
    case True
    have "fadd a NaN = NaN" by (cases a) auto
    then show ?thesis using True by (simp add: foldl_fadd_NaN)
  next
    case False
    then show ?thesis using Cons by auto
  qed
qed

lemma fsum_has_NaN: "NaN \<in> set xs \<Longrightarrow> fsum xs = NaN"
  by (simp add: fsum_def foldl_fadd_has_NaN)

text \<open>
  When the latest value is an infinity or NaN, the mean is NaN or the same infinity, so
  \<open>latest - mu\<close> is NaN.
\<close>

lemma fsub_last_mu_NaN:
  assumes "vals \<noteq> []" and "\<not> is_finite (last vals)" and "window_mu vals = Inr mu"
  shows "fsub (last vals) mu = NaN"
proof -
  obtain ys where vals: "vals = ys @ [last vals]"
    using assms(1) by (metis append_butlast_last_id)
  define acc where "acc = foldl fadd (Finite 0) ys"
  have s: "fsum vals = fadd acc (last vals)"
    unfolding fsum_def acc_def by (subst vals) simp
  have n: "real (length vals) \<noteq> 0" "0 < real (length vals)"
    using assms(1) by auto
  show ?thesis
    using assms(2,3) n unfolding window_mu_def s fsub_def
    by (cases "last vals"; cases acc) (auto split: if_splits)
qed

lemma window_z_nonfinite_last:
  assumes "vals \<noteq> []" and "\<not> is_finite (last vals)"
  shows "window_z vals = Inr NaN"
proof -
  have n: "real (length vals) \<noteq> 0"
    using assms(1) by auto
  obtain mu where mu: "window_mu vals = Inr mu"
    using n by (auto simp: window_mu_def)
  have num: "fsub (last vals) mu = NaN"
    by (rule fsub_last_mu_NaN [OF assms mu])
  have "fsquare (fsub (last vals) mu) \<in> set (map (\<lambda>v. fsquare (fsub v mu)) vals)"
    using assms(1) by (intro imageI image_eqI[where x="last vals"] last_in_set | simp)+
  then have "NaN \<in> set (map (\<lambda>v. fsquare (fsub v mu)) vals)"
    by (simp add: num)
  then have "fsum (map (\<lambda>v. fsquare (fsub v mu)) vals) = NaN"
    by (rule fsum_has_NaN)
  then have var: "window_var vals mu = Inr NaN"
    using n by (simp add: window_var_def)
  show ?thesis
    by (simp add: window_z_def mu var bind_err_def num EPS_def)
qed

lemma check_anomaly_nonfinite_last:
  assumes "buffers st (r, m) = Some buf" and "buf \<noteq> []" and "\<not> is_finite (snd (last buf))"
  shows "check_anomaly now r m st = (st, Inr None)"
proof -
  have "window_z (map snd buf) = Inr NaN"
    using assms(2,3) by (intro window_z_nonfinite_last) (simp_all add: last_map)
  with assms(1) show ?thesis
    by (rule check_anomaly_quiet) (simp add: Z_THRESHOLD_def)
qed

text \<open>
  C2 (as stated, refuted). The claim says that a non-finite value is rejected with an
  \<open>InvalidSample\<close> error and the store stays unchanged. Pushing NaN for a key that has
  no window yet creates the window with the NaN sample in it, and the call returns \<open>None\<close>.
\<close>

theorem C2_counterexample:
  "buffers empty_store (''A'', ''co2'') = None \<and>
   buffers (fst (push_sample 0 ''A'' ''co2'' 7200000000 NaN empty_store)) (''A'', ''co2'') =
     Some [(7200000000, NaN)] \<and>
   snd (push_sample 0 ''A'' ''co2'' 7200000000 NaN empty_store) = Inr None"
  by (simp add: push_sample_window push_sample_result check_anomaly_def empty_store_def
      setdefault_buf_def timedelta_seconds_def W_SECONDS_def)

text \<open>
  C2 (amended). \<open>push_sample\<close> does not check the value. For every non-finite value the
  sample is appended to the window of its key like any other, and the call returns \<open>None\<close>
  (or raises the \<open>OverflowError\<close> of the cutoff computation): no error for the value, and
  no anomaly either, since the z-score of a non-finite latest value is NaN.
\<close>

theorem C2_nonfinite_value_is_appended:
  assumes "\<not> is_finite v"
  shows "buffers (fst (push_sample now r m ts v st)) (r, m) =
           Some (purge (ts - timedelta_seconds W_SECONDS) (setdefault_buf st (r, m)) @ [(ts, v)]) \<and>
         snd (push_sample now r m ts v st) =
           (if ts < timedelta_seconds W_SECONDS then Inl OverflowError else Inr None)"
proof -
  let ?buf = "purge (ts - timedelta_seconds W_SECONDS) (setdefault_buf st (r, m)) @ [(ts, v)]"
  let ?st = "st\<lparr>buffers := (buffers st)((r, m) \<mapsto> ?buf)\<rparr>"
  have "check_anomaly now r m ?st = (?st, Inr None)"
    by (rule check_anomaly_nonfinite_last [where buf = ?buf]) (simp_all add: assms)
  then show ?thesis
    by (simp add: push_sample_window push_sample_result)
qed

theorem C2_witness:
  "\<not> is_finite PosInf \<and>
   buffers (fst (push_sample 0 ''A'' ''co2'' 7200000000 PosInf
     (store_of (''A'', ''co2'') [(7100000000, Finite 1), (7150000000, Finite 2)])))
     (''A'', ''co2'') =
     Some [(7100000000, Finite 1), (7150000000, Finite 2), (7200000000, PosInf)] \<and>
   snd (push_sample 0 ''A'' ''co2'' 7200000000 PosInf
     (store_of (''A'', ''co2'') [(7100000000, Finite 1), (7150000000, Finite 2)])) = Inr None"
proof -
  have h: "\<not> is_finite PosInf" by simp
  show ?thesis
    using h C2_nonfinite_value_is_appended [OF h, of 0 "''A''" "''co2''" 7200000000
        "store_of (''A'', ''co2'') [(7100000000, Finite 1), (7150000000, Finite 2)]"]
    by (simp add: store_of_def setdefault_buf_def timedelta_seconds_def W_SECONDS_def)
qed

section \<open>The trailing window\<close>

lemma setdefault_push:
  "setdefault_buf (fst (push_sample now r m ts v st)) (r, m) =
     purge (ts - timedelta_seconds W_SECONDS) (setdefault_buf st (r, m)) @ [(ts, v)]"
  by (simp add: setdefault_buf_def [of "fst (push_sample now r m ts v st)"] push_sample_window)

lemma in_window_cutoff: "in_window ts s \<longleftrightarrow> ts - timedelta_seconds W_SECONDS \<le> fst s"
  by (auto simp: in_window_def)

text \<open>On a window in timestamp order, popping the stale front is filtering.\<close>

lemma purge_sorted:
  "sorted (map fst xs) \<Longrightarrow> purge c xs = filter (\<lambda>s. c \<le> fst s) xs"
proof (induction xs)
  case Nil
  then show ?case by simp
next
  case (Cons s xs)
  show ?case
  proof (cases "fst s < c")
    case True
    then show ?thesis using Cons by simp
  next
    case False
    then have "\<forall>x\<in>set xs. c \<le> fst x" using Cons.prems by auto
    then have "filter (\<lambda>s. c \<le> fst s) xs = xs" by (simp add: filter_id_conv)
    then show ?thesis using False by simp
  qed
qed

lemma purge_sorted_in_window:
  "sorted (map fst xs) \<Longrightarrow> purge (ts - timedelta_seconds W_SECONDS) xs = filter (in_window ts) xs"
  by (simp add: purge_sorted in_window_cutoff [abs_def])

lemma purge_keeps:
  "s \<in> set xs \<Longrightarrow> \<not> fst s < c \<Longrightarrow> s \<in> set (purge c xs)"
  by (induction xs) auto

lemma ingest_all_fst_Nil: "fst (ingest_all r m [] st) = st"
  by simp

lemma ingest_all_fst_Cons:
  "fst (ingest_all r m ((now, ts, v) # cs) st) =
     fst (ingest_all r m cs (fst (push_sample now r m ts v st)))"
  by (simp add: case_prod_beta Let_def)

lemma ingest_all_fst_append:
  "fst (ingest_all r m (cs @ ds) st) = fst (ingest_all r m ds (fst (ingest_all r m cs st)))"
proof (induction cs arbitrary: st)
  case Nil
  then show ?case by simp
next
  case (Cons c cs)
  obtain now ts v where c: "c = (now, ts, v)" by (cases c)
  show ?case
    unfolding c append_Cons ingest_all_fst_Cons by (rule Cons.IH)
qed

lemma ingest_all_fst_snoc:
  "fst (ingest_all r m (cs @ [(now, ts, v)]) st) =
     fst (push_sample now r m ts v (fst (ingest_all r m cs st)))"
  by (simp add: ingest_all_fst_append case_prod_beta Let_def)

text \<open>
  While the timestamps arrive in non-decreasing order, on top of a window that is in
  order, the window after the last call is the filter of everything seen.
\<close>

lemma ingest_all_sorted_window:
  assumes "calls \<noteq> []"
    and "sorted (map fst (setdefault_buf st (r, m) @ map snd calls))"
  shows "setdefault_buf (fst (ingest_all r m calls st)) (r, m) =
           filter (in_window (fst (snd (last calls)))) (setdefault_buf st (r, m) @ map snd calls)"
  using assms
proof (induction calls rule: rev_induct)
  case Nil
  then show ?case by simp
next
  case (snoc c cs)
  obtain now ts v where c: "c = (now, ts, v)" by (cases c)
  let ?old = "setdefault_buf st (r, m)"
  let ?w = "setdefault_buf (fst (ingest_all r m cs st)) (r, m)"
  have srt: "sorted (map fst (?old @ map snd cs))"
    using snoc.prems(2) by (simp add: sorted_append)
  have new: "setdefault_buf (fst (ingest_all r m (cs @ [c]) st)) (r, m) =
      purge (ts - timedelta_seconds W_SECONDS) ?w @ [(ts, v)]"
    by (simp add: c ingest_all_fst_snoc setdefault_push)
  have self: "in_window ts (ts, v)" by (simp add: in_window_def)
  have "purge (ts - timedelta_seconds W_SECONDS) ?w = filter (in_window ts) (?old @ map snd cs)"
  proof (cases "cs = []")
    case True
    then show ?thesis using srt by (simp add: purge_sorted_in_window)
  next
    case False
    let ?tp = "fst (snd (last cs))"
    have w: "?w = filter (in_window ?tp) (?old @ map snd cs)"
      using snoc.IH [OF False srt] .
    have "snd (last cs) \<in> set (map snd cs)" using False by simp
    then have le: "?tp \<le> ts"
      using snoc.prems(2) by (auto simp: c sorted_append)
    have imp: "in_window ts s \<Longrightarrow> in_window ?tp s" for s
      using le by (simp add: in_window_def)
    have "sorted (map fst ?w)"
      unfolding w using srt by (rule sorted_filter)
    then have "purge (ts - timedelta_seconds W_SECONDS) ?w = filter (in_window ts) ?w"
      by (rule purge_sorted_in_window)
    also have "\<dots> = filter (\<lambda>s. in_window ?tp s \<and> in_window ts s) (?old @ map snd cs)"
      unfolding w by (simp only: filter_filter)
    also have "\<dots> = filter (in_window ts) (?old @ map snd cs)"
      by (rule filter_cong) (auto dest: imp)
    finally show ?thesis .
  qed
  then show ?case
    unfolding new by (simp add: c self)
qed

lemma ingest_all_Some:
  assumes "calls \<noteq> []"
  shows "buffers (fst (ingest_all r m calls st)) (r, m) =
           Some (setdefault_buf (fst (ingest_all r m calls st)) (r, m))"
proof -
  obtain cs c where calls: "calls = cs @ [c]"
    using assms by (metis append_butlast_last_id)
  obtain now ts v where c: "c = (now, ts, v)" by (cases c)
  show ?thesis
    unfolding calls c ingest_all_fst_snoc setdefault_push by (rule push_sample_window)
qed

lemma setdefault_empty_store: "setdefault_buf empty_store k = []"
  by (simp add: setdefault_buf_def empty_store_def)

text \<open>
  C3 (as stated, refuted). The claim says that after each ingestion the window holds
  exactly the ingested samples with a timestamp at or after \<open>latest - window_duration\<close>.
  Pushing the timestamps 10000 s, 2000 s, 10000 s for a new key leaves all three samples
  in the window, although the second is 8000 s older than the latest: it sits behind a
  sample that is in range, and the purge loop stops at the front. The specified window
  holds the two samples at 10000 s only.
\<close>

theorem C3_counterexample:
  "buffers (fst (ingest_all ''A'' ''co2''
      [(0, 10000000000, Finite 1), (0, 2000000000, Finite 2), (0, 10000000000, Finite 3)]
      empty_store)) (''A'', ''co2'') =
     Some [(10000000000, Finite 1), (2000000000, Finite 2), (10000000000, Finite 3)] \<and>
   retained_spec 10000000000
     (map snd [(0::int, 10000000000, Finite 1), (0, 2000000000, Finite 2),
               (0, 10000000000, Finite 3)]) =
     [(10000000000, Finite 1), (10000000000, Finite 3)]"
  unfolding ingest_all_fst_Cons ingest_all_fst_Nil push_sample_window setdefault_push
    setdefault_empty_store
  by (simp add: retained_spec_def in_window_def timedelta_seconds_def W_SECONDS_def)

text \<open>
  C3 (amended). For every sequence of calls for one key that had no window before, whose
  timestamps arrive in non-decreasing order: after the last call (hence after each call,
  a prefix being such a sequence too) the window holds exactly the ingested samples whose
  timestamp is at least \<open>latest - window_duration\<close>, in ingestion order, \<open>latest\<close> being
  the timestamp just appended.
\<close>

theorem C3_time_ordered_window_is_trailing_interval:
  assumes "buffers st (r, m) = None" and "calls \<noteq> []" and "sorted (map (fst \<circ> snd) calls)"
  shows "buffers (fst (ingest_all r m calls st)) (r, m) =
           Some (retained_spec (fst (snd (last calls))) (map snd calls))"
proof -
  have old: "setdefault_buf st (r, m) = []"
    using assms(1) by (simp add: setdefault_buf_def)
  have "sorted (map fst (setdefault_buf st (r, m) @ map snd calls))"
    using assms(3) by (simp add: old)
  from ingest_all_sorted_window [OF assms(2) this] show ?thesis
    by (simp add: ingest_all_Some [OF assms(2)] old retained_spec_def)
qed

theorem C3_witness:
  "buffers empty_store (''A'', ''co2'') = None \<and>
   [(0::int, 7200000000::nat, Finite 1), (1, 8000000000, Finite 2), (2, 9000000001, Finite 3)] \<noteq> [] \<and>
   sorted (map (fst \<circ> snd)
     [(0::int, 7200000000::nat, Finite 1), (1, 8000000000, Finite 2), (2, 9000000001, Finite 3)]) \<and>
   buffers (fst (ingest_all ''A'' ''co2''
     [(0, 7200000000, Finite 1), (1, 8000000000, Finite 2), (2, 9000000001, Finite 3)]
     empty_store)) (''A'', ''co2'') =
     Some [(8000000000, Finite 2), (9000000001, Finite 3)]"
proof -
  have h1: "buffers empty_store (''A'', ''co2'') = None"
    by (simp add: empty_store_def)
  have h2: "[(0::int, 7200000000::nat, Finite 1), (1, 8000000000, Finite 2),
             (2, 9000000001, Finite 3)] \<noteq> []"
    by simp
  have h3: "sorted (map (fst \<circ> snd)
     [(0::int, 7200000000::nat, Finite 1), (1, 8000000000, Finite 2), (2, 9000000001, Finite 3)])"
    by simp
  show ?thesis
    using h1 h2 h3 C3_time_ordered_window_is_trailing_interval [OF h1 h2 h3]
    by (simp add: retained_spec_def in_window_def timedelta_seconds_def W_SECONDS_def)
qed

section \<open>The eviction boundary\<close>

text \<open>
  C7 (as stated, refuted). The claim says that any sample older than
  \<open>t - window_duration\<close> is evicted. After the calls at 9000 s and 7199.999999 s the
  window holds both samples; a further call at 9000 s has the cutoff 7200 s, and the
  sample that is one microsecond older than the cutoff stays, behind the front sample
  that is in range.
\<close>

theorem C7_counterexample:
  "buffers (fst (ingest_all ''A'' ''co2''
      [(0, 9000000000, Finite 1), (0, 7199999999, Finite 2)] empty_store)) (''A'', ''co2'') =
     Some [(9000000000, Finite 1), (7199999999, Finite 2)] \<and>
   buffers (fst (ingest_all ''A'' ''co2''
      [(0, 9000000000, Finite 1), (0, 7199999999, Finite 2), (0, 9000000000, Finite 3)]
      empty_store)) (''A'', ''co2'') =
     Some [(9000000000, Finite 1), (7199999999, Finite 2), (9000000000, Finite 3)] \<and>
   7199999999 + timedelta_seconds W_SECONDS < 9000000000"
  unfolding ingest_all_fst_Cons ingest_all_fst_Nil push_sample_window setdefault_push
    setdefault_empty_store
  by (simp add: timedelta_seconds_def W_SECONDS_def)

text \<open>
  C7 (amended). The boundary is inclusive: after a call with timestamp \<open>ts\<close>, a sample of
  the window whose timestamp is exactly \<open>ts - window_duration\<close> is still in the window.
  A sample that is older, by one microsecond or more, is evicted provided the window was
  in timestamp order before the call.
\<close>

theorem C7_boundary_inclusive:
  assumes "s \<in> set (setdefault_buf st (r, m))"
  shows "(fst s + timedelta_seconds W_SECONDS = ts \<longrightarrow>
            s \<in> set (setdefault_buf (fst (push_sample now r m ts v st)) (r, m))) \<and>
         (sorted (map fst (setdefault_buf st (r, m))) \<and>
          fst s + timedelta_seconds W_SECONDS < ts \<longrightarrow>
            s \<notin> set (setdefault_buf (fst (push_sample now r m ts v st)) (r, m)))"
proof (intro conjI impI)
  assume "fst s + timedelta_seconds W_SECONDS = ts"
  then have "\<not> fst s < ts - timedelta_seconds W_SECONDS" by simp
  with assms have "s \<in> set (purge (ts - timedelta_seconds W_SECONDS) (setdefault_buf st (r, m)))"
    by (rule purge_keeps)
  then show "s \<in> set (setdefault_buf (fst (push_sample now r m ts v st)) (r, m))"
    by (simp add: setdefault_push)
next
  assume "sorted (map fst (setdefault_buf st (r, m))) \<and> fst s + timedelta_seconds W_SECONDS < ts"
  then show "s \<notin> set (setdefault_buf (fst (push_sample now r m ts v st)) (r, m))"
    by (cases s) (auto simp: setdefault_push purge_sorted_in_window in_window_def)
qed

theorem C7_witness:
  "(7200000000, Finite 2) \<in> set (setdefault_buf (store_of (''A'', ''co2'')
      [(7199999999, Finite 1), (7200000000, Finite 2), (8000000000, Finite 3)]) (''A'', ''co2'')) \<and>
   (7199999999, Finite 1) \<in> set (setdefault_buf (store_of (''A'', ''co2'')
      [(7199999999, Finite 1), (7200000000, Finite 2), (8000000000, Finite 3)]) (''A'', ''co2'')) \<and>
   sorted (map fst (setdefault_buf (store_of (''A'', ''co2'')
      [(7199999999, Finite 1), (7200000000, Finite 2), (8000000000, Finite 3)]) (''A'', ''co2''))) \<and>
   7200000000 + timedelta_seconds W_SECONDS = 9000000000 \<and>
   7199999999 + timedelta_seconds W_SECONDS < 9000000000 \<and>
   (7200000000, Finite 2) \<in> set (setdefault_buf (fst (push_sample 0 ''A'' ''co2'' 9000000000 (Finite 4)
      (store_of (''A'', ''co2'')
        [(7199999999, Finite 1), (7200000000, Finite 2), (8000000000, Finite 3)])))
      (''A'', ''co2'')) \<and>
   (7199999999, Finite 1) \<notin> set (setdefault_buf (fst (push_sample 0 ''A'' ''co2'' 9000000000 (Finite 4)
      (store_of (''A'', ''co2'')
        [(7199999999, Finite 1), (7200000000, Finite 2), (8000000000, Finite 3)])))
      (''A'', ''co2''))"
proof -
  let ?st = "store_of (''A'', ''co2'')
      [(7199999999, Finite 1), (7200000000, Finite 2), (8000000000, Finite 3)]"
  have w: "setdefault_buf ?st (''A'', ''co2'') =
      [(7199999999, Finite 1), (7200000000, Finite 2), (8000000000, Finite 3)]"
    by (simp add: setdefault_buf_def store_of_def)
  have h1: "(7200000000, Finite 2) \<in> set (setdefault_buf ?st (''A'', ''co2''))"
    by (simp add: w)
  have h2: "(7199999999, Finite 1) \<in> set (setdefault_buf ?st (''A'', ''co2''))"
    by (simp add: w)
  have t: "7200000000 + timedelta_seconds W_SECONDS = 9000000000"
      "7199999999 + timedelta_seconds W_SECONDS < 9000000000"
    by (simp_all add: timedelta_seconds_def W_SECONDS_def)
  have s: "sorted (map fst (setdefault_buf ?st (''A'', ''co2'')))"
    by (simp add: w)
  show ?thesis
    using h1 h2 t s
      C7_boundary_inclusive [OF h1, of 9000000000 0 "Finite 4"]
      C7_boundary_inclusive [OF h2, of 9000000000 0 "Finite 4"]
    by simp
qed

section \<open>The identifier of an anomaly record\<close>

lemma digit_char_inj: "a < 10 \<Longrightarrow> b < 10 \<Longrightarrow> digit_char a = digit_char b \<Longrightarrow> a = b"
proof -
  assume a: "a < 10" and b: "b < 10" and e: "digit_char a = digit_char b"
  have "distinct ''0123456789''" by simp
  with e a b show "a = b"
    unfolding digit_char_def by (subst (asm) nth_eq_iff_index_eq) simp_all
qed

lemma digit_char_not_minus: "d < 10 \<Longrightarrow> digit_char d \<noteq> CHR ''-''"
proof -
  assume "d < 10"
  then have "digit_char d \<in> set ''0123456789''"
    unfolding digit_char_def by (intro nth_mem) simp
  then show ?thesis by auto
qed

lemma str_nat_not_Nil: "str_nat n \<noteq> []"
  by (subst str_nat.simps) simp

lemma str_nat_inj: "str_nat n = str_nat k \<Longrightarrow> n = k"
proof (induction n arbitrary: k rule: str_nat.induct)
  case (1 n)
  show ?case
  proof (cases "n < 10")
    case True
    then have n: "str_nat n = [digit_char n]" by (subst str_nat.simps) simp
    show ?thesis
    proof (cases "k < 10")
      case k: True
      then have "str_nat k = [digit_char k]" by (subst str_nat.simps) simp
      with n "1.prems" have "digit_char n = digit_char k" by simp
      with True k show ?thesis by (rule digit_char_inj)
    next
      case False
      then have "str_nat k = str_nat (k div 10) @ [digit_char (k mod 10)]"
        by (subst str_nat.simps) simp
      with n "1.prems" have "str_nat (k div 10) = []" by simp
      then show ?thesis by (simp add: str_nat_not_Nil)
    qed
  next
    case False
    then have n: "str_nat n = str_nat (n div 10) @ [digit_char (n mod 10)]"
      by (subst str_nat.simps) simp
    show ?thesis
    proof (cases "k < 10")
      case True
      then have "str_nat k = [digit_char k]" by (subst str_nat.simps) simp
      with n "1.prems" have "str_nat (n div 10) = []" by simp
      then show ?thesis by (simp add: str_nat_not_Nil)
    next
      case k: False
      then have "str_nat k = str_nat (k div 10) @ [digit_char (k mod 10)]"
        by (subst str_nat.simps) simp
      with n "1.prems" have e: "str_nat (n div 10) = str_nat (k div 10)"
        and d: "digit_char (n mod 10) = digit_char (k mod 10)" by simp_all
      from "1.IH" [OF False e] have q: "n div 10 = k div 10" .
      have r: "n mod 10 = k mod 10"
        by (rule digit_char_inj [OF _ _ d]) simp_all
      from q r show ?thesis by (metis div_mult_mod_eq)
    qed
  qed
qed

lemma str_nat_hd_not_minus: "hd (str_nat n) \<noteq> CHR ''-''"
proof (induction n rule: str_nat.induct)
  case (1 n)
  show ?case
  proof (cases "n < 10")
    case True
    then show ?thesis by (subst str_nat.simps) (simp add: digit_char_not_minus)
  next
    case False
    then have "str_nat n = str_nat (n div 10) @ [digit_char (n mod 10)]"
      by (subst str_nat.simps) simp
    then show ?thesis using "1.IH" [OF False] by (simp add: str_nat_not_Nil)
  qed
qed

lemma str_int_inj: "str_int i = str_int j \<Longrightarrow> i = j"
proof -
  assume e: "str_int i = str_int j"
  have neg: "str_nat a \<noteq> CHR ''-'' # xs" for a xs
    using str_nat_hd_not_minus [of a] by (metis list.sel(1))
  show "i = j"
  proof (cases "i < 0"; cases "j < 0")
    assume "i < 0" "j < 0"
    with e have "nat (- i) = nat (- j)" by (simp add: str_int_def str_nat_inj)
    with \<open>i < 0\<close> \<open>j < 0\<close> show ?thesis by simp
  next
    assume "i < 0" "\<not> j < 0"
    with e [symmetric] neg [of "nat j"] show ?thesis by (simp add: str_int_def)
  next
    assume "\<not> i < 0" "j < 0"
    with e neg [of "nat i"] show ?thesis by (simp add: str_int_def)
  next
    assume "\<not> i < 0" "\<not> j < 0"
    with e have "nat i = nat j" by (simp add: str_int_def str_nat_inj)
    with \<open>\<not> i < 0\<close> \<open>\<not> j < 0\<close> show ?thesis by simp
  qed
qed

lemma make_id_inj: "make_id r m now = make_id r m now' \<longleftrightarrow> now = now'"
  by (auto simp: make_id_def dest: str_int_inj)

lemma check_anomaly_Some_id:
  "snd (check_anomaly now r m st) = Inr (Some a) \<Longrightarrow> anom_id a = make_id r m now"
  by (auto simp: check_anomaly_def Let_def split: option.splits if_splits sum.splits)

lemma sqrt_9: "sqrt 9 = 3"
proof -
  have "sqrt 9 = sqrt (3\<^sup>2)" by simp
  also have "\<dots> = \<bar>3\<bar>" by (rule real_sqrt_abs)
  finally show ?thesis by simp
qed

lemma z_spike: "window_z (map snd spike_window) = Inr (Finite (9 / (3 + 1 / 10 ^ 9)))"
  by (simp add: spike_window_def window_z_def window_mu_def window_var_def fsum_def
      bind_err_def fsub_def EPS_def sqrt_9)

lemma check_spike:
  "check_anomaly now ''A'' ''co2'' (store_of (''A'', ''co2'') spike_window) =
     (write_anomaly (spike_record now) (store_of (''A'', ''co2'') spike_window),
      Inr (Some (spike_record now)))"
proof -
  have b: "buffers (store_of (''A'', ''co2'') spike_window) (''A'', ''co2'') = Some spike_window"
    by (simp add: store_of_def)
  have l: "\<not> (spike_window = [] \<or> length spike_window < 3)"
    by (simp add: spike_window_def)
  have g: "fgt (fabs (Finite (9 / (3 + 1 / 10 ^ 9)))) Z_THRESHOLD"
    by (simp add: Z_THRESHOLD_def)
  have e: "fst (hd spike_window) = 7200000000" "fst (last spike_window) = 7740000000"
      "last (map snd spike_window) = Finite 10"
    by (simp_all add: spike_window_def)
  show ?thesis
    unfolding check_anomaly_def b option.case Let_def z_spike sum.case
    using l g e by (simp add: spike_record_def)
qed

text \<open>
  C4 (as stated, refuted). The claim says that evaluating twice on the identical window
  yields the same id. \<open>check_anomaly\<close> on one and the same store, holding the spike
  window for the key \<open>(A, co2)\<close>, returns a record with the id \<open>anom-A-co2-1700000000\<close> when
  the clock reads 1700000000 and one with the id \<open>anom-A-co2-1700000001\<close> a second later.
\<close>

theorem C4_counterexample:
  "result_id (check_anomaly 1700000000 ''A'' ''co2'' (store_of (''A'', ''co2'') spike_window)) =
     Some ''anom-A-co2-1700000000'' \<and>
   result_id (check_anomaly 1700000001 ''A'' ''co2'' (store_of (''A'', ''co2'') spike_window)) =
     Some ''anom-A-co2-1700000001''"
  by (simp add: check_spike result_id_def spike_record_def make_id_def str_int_def
      str_nat.simps digit_char_def)

text \<open>
  C4 (amended). The id of a record is a function of the key and of the clock reading at
  the evaluation, in whole seconds: it is \<open>anom-{roomId}-{metric}-{now}\<close>. The window does
  not enter it. So for one key, two evaluations, on the same window or on different
  ones, give the same id exactly when they read the same clock second.
\<close>

theorem C4_id_from_key_and_clock:
  assumes "snd (check_anomaly now r m st) = Inr (Some a)"
    and "snd (check_anomaly now' r m st') = Inr (Some a')"
  shows "anom_id a = make_id r m now \<and> (anom_id a = anom_id a' \<longleftrightarrow> now = now')"
  using check_anomaly_Some_id [OF assms(1)] check_anomaly_Some_id [OF assms(2)]
  by (simp add: make_id_inj)

theorem C4_witness:
  "snd (check_anomaly 1700000000 ''A'' ''co2'' (store_of (''A'', ''co2'') spike_window)) =
     Inr (Some (spike_record 1700000000)) \<and>
   snd (check_anomaly 1700000001 ''A'' ''co2'' (store_of (''A'', ''co2'') spike_window)) =
     Inr (Some (spike_record 1700000001)) \<and>
   anom_id (spike_record 1700000000) = make_id ''A'' ''co2'' 1700000000 \<and>
   anom_id (spike_record 1700000000) \<noteq> anom_id (spike_record 1700000001)"
proof -
  have h1: "snd (check_anomaly 1700000000 ''A'' ''co2'' (store_of (''A'', ''co2'') spike_window)) =
     Inr (Some (spike_record 1700000000))"
    by (simp add: check_spike)
  have h2: "snd (check_anomaly 1700000001 ''A'' ''co2'' (store_of (''A'', ''co2'') spike_window)) =
     Inr (Some (spike_record 1700000001))"
    by (simp add: check_spike)
  from C4_id_from_key_and_clock [OF h1 h2]
  have c1: "anom_id (spike_record 1700000000) = make_id ''A'' ''co2'' 1700000000"
    and c2: "(anom_id (spike_record 1700000000) = anom_id (spike_record 1700000001)) =
             (1700000000 = (1700000001 :: int))"
    by blast+
  from c2 have c3: "anom_id (spike_record 1700000000) \<noteq> anom_id (spike_record 1700000001)"
    by simp
  from h1 h2 c1 c3 show ?thesis by blast
qed

end
